theory Spec2Isabelle
  imports Complex_Main
begin

section \<open>Strings\<close>

text \<open>
  A string is a list of 8-bit characters, read as the code units below 256 of a
  JavaScript string. The three built-in string methods the handlers call are written out
  on that range: \<open>trim\<close> removes the white space of the range from both ends,
  \<open>toLowerCase\<close> folds the upper-case letters of the range, \<open>str_includes\<close>
  (the method \<open>includes\<close>) is the substring test.
\<close>

definition isWhitespace :: "char \<Rightarrow> bool" where
  "isWhitespace c = (of_char c \<in> {9, 10, 11, 12, 13, 32, 160 :: nat})"

definition trim :: "string \<Rightarrow> string" where
  "trim s = rev (dropWhile isWhitespace (rev (dropWhile isWhitespace s)))"

definition lowerChar :: "char \<Rightarrow> char" where
  "lowerChar c =
     (let n = of_char c :: nat in
      if (65 \<le> n \<and> n \<le> 90) \<or> (192 \<le> n \<and> n \<le> 222 \<and> n \<noteq> 215)
      then char_of (n + 32) else c)"

definition toLowerCase :: "string \<Rightarrow> string" where
  "toLowerCase s = map lowerChar s"

fun startsWith :: "string \<Rightarrow> string \<Rightarrow> bool" where
  "startsWith s [] = True"
| "startsWith [] (c # sub) = False"
| "startsWith (d # s) (c # sub) = (d = c \<and> startsWith s sub)"

fun str_includes :: "string \<Rightarrow> string \<Rightarrow> bool" where
  "str_includes [] sub = (sub = [])"
| "str_includes (c # s) sub = (startsWith (c # s) sub \<or> str_includes s sub)"

fun join :: "string \<Rightarrow> string list \<Rightarrow> string" where
  "join sep [] = []"
| "join sep [x] = x"
| "join sep (x # y # ys) = x @ sep @ join sep (y # ys)"

section \<open>Data\<close>

text \<open>The interface \<open>Task\<close>; its fields \<open>id\<close> and \<open>text\<close> carry a prefix here.\<close>

record task =
  task_id :: string
  task_text :: string
  completed :: bool
  createdAt :: nat

text \<open>
  One entry of a tool-call batch. \<open>fc_args\<close> is \<open>None\<close> when the entry has no
  \<open>args\<close> object; a key missing from the object reads as \<open>undefined\<close>. The only
  argument the tool declarations know is the string \<open>text\<close>.
\<close>

record function_call =
  fc_id :: string
  fc_name :: string
  fc_args :: "(string \<rightharpoonup> string) option"

record tool_response =
  resp_id :: string
  resp_name :: string
  resp_result :: string

text \<open>
  The parts of a \<open>LiveServerMessage\<close> that \<open>onmessage\<close> reads: the inline audio payload of
  the first part of the model turn, the interruption flag, and the tool-call batch (\<open>Some None\<close>
  is a \<open>toolCall\<close> object without \<open>functionCalls\<close>).
\<close>

record message =
  audioData :: "string option"
  interrupted :: bool
  toolCall :: "function_call list option option"

datatype js_error = TypeError

type_synonym handle = nat

text \<open>
  What the handlers take from outside the file. \<open>decode\<close> stands for
  \<open>decodeAudioData (base64ToBytes data) ctx\<close> of \<open>utils/pcm\<close>, which is not among the
  sources: it yields the duration of the decoded buffer in seconds, or \<open>None\<close> when either call
  throws. \<open>addition\<close> is the addition of doubles. \<open>generateId\<close> and \<open>dateNow\<close> give
  the outcome of the k-th call of \<open>generateId()\<close> and of \<open>Date.now()\<close> in \<open>addTask\<close>.
\<close>

text \<open>
  Times are doubles in the code, and are taken here as the real numbers that doubles
  denote (the infinities and NaN are left out). Comparison and \<open>max\<close> of doubles are exact; their addition is rounded, so it is
  not the addition of the reals. It is a function of which one property is used: adding a
  number that is not negative does not give less than the first summand (rounding is
  monotone, and the first summand is a double).
\<close>

typedef float_add = "{f :: real \<Rightarrow> real \<Rightarrow> real. \<forall>t d. 0 \<le> d \<longrightarrow> t \<le> f t d}"
  morphisms apply_add Abs_float_add
  by (rule exI [of _ "\<lambda>t d. t + d"]) simp

setup_lifting type_definition_float_add

record environment =
  decode :: "string \<Rightarrow> real option"
  addition :: float_add
  generateId :: "nat \<Rightarrow> string"
  dateNow :: "nat \<Rightarrow> nat"

text \<open>
  The state of the component \<open>App\<close> that the voice session touches: the React state
  variables, the refs, and a record of the effects on the outside (source nodes created, started
  and stopped, the warnings and errors written to the console, tool responses sent, uncaught
  exceptions, the stored key, the dialogues shown and calls made while connecting). Times are seconds on the output audio clock, taken as real numbers.
  A source node is named by the number of nodes created before it.
\<close>

datatype io = HasSelectedApiKey | OpenSelectKey | Prompt | GetItem | SetItem string
  | GetUserMedia | Connect string

record app =
  tasks :: "task list"
  tasksRef :: "task list"
  customApiKey :: string
  isVoiceActive :: bool
  isVoiceConnecting :: bool
  voiceError :: "string option"
  isBotSpeaking :: bool
  audioContextRef :: bool
  inputContextRef :: bool
  liveSessionRef :: "string option"
  nextStartTimeRef :: real
  audioSourcesRef :: "handle set"
  sourcesCreated :: nat
  started :: "(handle \<times> real \<times> real) list"
  stopped :: "handle set"
  console :: "string list"
  sentToolResponses :: "tool_response list"
  uncaught :: "js_error list"
  idCalls :: nat
  storedKey :: "string option"
  trace :: "io list"

section \<open>Task handlers\<close>

text \<open>\<open>addTask\<close>, \<open>deleteTask\<close>, \<open>clearAllTasks\<close>; the sound they trigger is left out.\<close>

definition addTask :: "environment \<Rightarrow> string \<Rightarrow> app \<Rightarrow> app" where
  "addTask env txt s =
     (if trim txt = [] then s
      else s\<lparr>tasks :=
                \<lparr>task_id = generateId env (idCalls s), task_text = txt, completed = False,
                 createdAt = dateNow env (idCalls s)\<rparr> # tasks s,
              idCalls := Suc (idCalls s)\<rparr>)"

definition deleteTask :: "string \<Rightarrow> app \<Rightarrow> app" where
  "deleteTask i s = s\<lparr>tasks := filter (\<lambda>t. task_id t \<noteq> i) (tasks s)\<rparr>"

definition clearAllTasks :: "app \<Rightarrow> app" where
  "clearAllTasks s = s\<lparr>tasks := []\<rparr>"

text \<open>The effect that keeps \<open>tasksRef\<close> in step with \<open>tasks\<close>; it runs after a render.\<close>

definition syncTasksRef :: "app \<Rightarrow> app" where
  "syncTasksRef s = s\<lparr>tasksRef := tasks s\<rparr>"

section \<open>The message handler\<close>

subsection \<open>Audio output\<close>

text \<open>
  The first block of \<open>onmessage\<close>, with \<open>now\<close> the value of \<open>ctx.currentTime\<close> it reads.
  The continuation after \<open>await\<close> is taken to run before the next event. The \<open>onended\<close>
  callback it registers is \<open>onended\<close> below.
\<close>

definition onmessage_audio :: "environment \<Rightarrow> real \<Rightarrow> message \<Rightarrow> app \<Rightarrow> app" where
  "onmessage_audio env now m s =
     (case audioData m of
        None \<Rightarrow> s
      | Some a \<Rightarrow>
          if a = [] \<or> \<not> audioContextRef s then s
          else
            let s1 = s\<lparr>isBotSpeaking := True,
                       nextStartTimeRef := max (nextStartTimeRef s) now\<rparr>
            in (case decode env a of
                  None \<Rightarrow> s1\<lparr>console := console s1 @ [''Audio Decode Error'']\<rparr>
                | Some d \<Rightarrow>
                    s1\<lparr>sourcesCreated := Suc (sourcesCreated s1),
                       started := started s1 @ [(sourcesCreated s1, nextStartTimeRef s1, d)],
                       nextStartTimeRef := apply_add (addition env) (nextStartTimeRef s1) d,
                       audioSourcesRef := insert (sourcesCreated s1) (audioSourcesRef s1)\<rparr>))"

definition onended :: "handle \<Rightarrow> app \<Rightarrow> app" where
  "onended h s =
     (let s1 = s\<lparr>audioSourcesRef := audioSourcesRef s - {h}\<rparr>
      in if audioSourcesRef s1 = {} then s1\<lparr>isBotSpeaking := False\<rparr> else s1)"

subsection \<open>Interruptions\<close>

definition interrupt :: "app \<Rightarrow> app" where
  "interrupt s =
     s\<lparr>stopped := stopped s \<union> audioSourcesRef s,
       audioSourcesRef := {},
       nextStartTimeRef := 0,
       isBotSpeaking := False\<rparr>"

definition onmessage_interrupted :: "message \<Rightarrow> app \<Rightarrow> app" where
  "onmessage_interrupted m s = (if interrupted m then interrupt s else s)"

subsection \<open>Tool calls\<close>

text \<open>
  The body of the loop up to the response: the result string and the new state, or the
  \<open>TypeError\<close> of a method call on \<open>undefined\<close>.
\<close>

definition callTool :: "environment \<Rightarrow> function_call \<Rightarrow> app \<Rightarrow> js_error + string \<times> app" where
  "callTool env fc s =
     (if fc_name fc = ''addTask'' then
        (case fc_args fc of
           None \<Rightarrow> Inl TypeError
         | Some args \<Rightarrow>
             (case args ''text'' of
                None \<Rightarrow> Inl TypeError
              | Some txt \<Rightarrow> Inr (''Added task: '' @ txt, addTask env txt s)))
      else if fc_name fc = ''removeTask'' then
        (case fc_args fc of
           None \<Rightarrow> Inl TypeError
         | Some args \<Rightarrow>
             (case args ''text'' of
                None \<Rightarrow>
                  if tasksRef s = [] then Inr (''Could not find task matching undefined'', s)
                  else Inl TypeError
              | Some txt \<Rightarrow>
                  (case find (\<lambda>t. str_includes (toLowerCase (task_text t)) (toLowerCase txt))
                          (tasksRef s) of
                     Some t \<Rightarrow> Inr (''Removed task: '' @ task_text t, deleteTask (task_id t) s)
                   | None \<Rightarrow> Inr (''Could not find task matching '' @ txt, s))))
      else if fc_name fc = ''getTasks'' then
        (let list = join '', '' (map task_text (tasksRef s))
         in Inr (if list \<noteq> [] then ''Your list has: '' @ list else ''Your list is empty.'', s))
      else if fc_name fc = ''clearAllTasks'' then Inr (''All tasks cleared.'', clearAllTasks s)
      else Inr (''ok'', s))"

definition sendToolResponse :: "function_call \<Rightarrow> string \<Rightarrow> app \<Rightarrow> app" where
  "sendToolResponse fc result s =
     s\<lparr>sentToolResponses := sentToolResponses s @
          [\<lparr>resp_id = fc_id fc, resp_name = fc_name fc, resp_result = result\<rparr>]\<rparr>"

text \<open>The loop over the batch; an exception leaves it and the handler.\<close>

fun functionCalls :: "environment \<Rightarrow> function_call list \<Rightarrow> app \<Rightarrow> app" where
  "functionCalls env [] s = s"
| "functionCalls env (fc # fcs) s =
     (case callTool env fc s of
        Inl e \<Rightarrow> s\<lparr>uncaught := uncaught s @ [e]\<rparr>
      | Inr (result, s') \<Rightarrow> functionCalls env fcs (sendToolResponse fc result s'))"

definition onmessage_toolCall :: "environment \<Rightarrow> message \<Rightarrow> app \<Rightarrow> app" where
  "onmessage_toolCall env m s =
     (case toolCall m of
        None \<Rightarrow> s
      | Some None \<Rightarrow> s\<lparr>uncaught := uncaught s @ [TypeError]\<rparr>
      | Some (Some fcs) \<Rightarrow> functionCalls env fcs s)"

definition onmessage :: "environment \<Rightarrow> real \<Rightarrow> message \<Rightarrow> app \<Rightarrow> app" where
  "onmessage env now m s =
     onmessage_toolCall env m (onmessage_interrupted m (onmessage_audio env now m s))"

section \<open>Teardown\<close>

definition disconnectVoice :: "app \<Rightarrow> app" where
  "disconnectVoice s =
     s\<lparr>liveSessionRef := None,
       inputContextRef := False,
       stopped := stopped s \<union> audioSourcesRef s,
       audioSourcesRef := {},
       isVoiceActive := False,
       isVoiceConnecting := False,
       isBotSpeaking := False\<rparr>"

text \<open>The callbacks \<open>onopen\<close>, \<open>onclose\<close> and \<open>onerror\<close> of the session.\<close>

definition onopen :: "app \<Rightarrow> app" where
  "onopen s = s\<lparr>isVoiceConnecting := False, isVoiceActive := True\<rparr>"

definition onclose :: "app \<Rightarrow> app" where
  "onclose s = disconnectVoice s"

definition onerror :: "app \<Rightarrow> app" where
  "onerror s =
     disconnectVoice
       (s\<lparr>console := console s @ [''Session Error''], voiceError := Some ''Connection failed''\<rparr>)"

section \<open>Connecting\<close>

text \<open>
  What \<open>connectVoice\<close> finds in the browser: the key-selection capability
  \<open>window.aistudio\<close> with the outcomes of its two calls, the value of \<open>getEnvApiKey()\<close>
  (the empty string for every falsy value), the answer to the \<open>prompt\<close> dialogue
  (\<open>None\<close> when it is cancelled), whether \<open>localStorage\<close> can be used, and whether
  \<open>getUserMedia\<close> grants the microphone.
\<close>

record aistudio =
  hasSelectedApiKey :: bool
  openSelectKey :: bool

record window =
  window_aistudio :: "aistudio option"
  envApiKey :: string
  promptAnswer :: "string option"
  localStorageWorks :: bool
  getUserMediaOk :: bool

definition handleSetKey :: "window \<Rightarrow> app \<Rightarrow> app" where
  "handleSetKey w s =
     (case window_aistudio w of
        Some a \<Rightarrow> s\<lparr>trace := trace s @ [OpenSelectKey]\<rparr>
      | None \<Rightarrow>
          let s1 = s\<lparr>trace := trace s @ [Prompt]\<rparr>
          in (case promptAnswer w of
                None \<Rightarrow> s1
              | Some key \<Rightarrow>
                  if key = [] then s1
                  else
                    let s2 = (if localStorageWorks w
                              then s1\<lparr>storedKey := Some key, trace := trace s1 @ [SetItem key]\<rparr>
                              else s1)
                    in s2\<lparr>customApiKey := key\<rparr>))"

text \<open>
  \<open>connectVoice\<close> up to the point where the key is settled: \<open>Inl\<close> is the early return
  with \<open>voiceError\<close> set, \<open>Inr\<close> carries the value of \<open>apiKey\<close>.
\<close>

definition askAistudio :: "window \<Rightarrow> app \<Rightarrow> app + app" where
  "askAistudio w s =
     (case window_aistudio w of
        None \<Rightarrow> Inr s
      | Some a \<Rightarrow>
          let s1 = s\<lparr>trace := trace s @ [HasSelectedApiKey]\<rparr>
          in if hasSelectedApiKey a then Inr s1
             else
               let s2 = s1\<lparr>trace := trace s1 @ [OpenSelectKey]\<rparr>
               in if openSelectKey a then Inr s2
                  else Inl (s2\<lparr>voiceError := Some ''API Key required''\<rparr>))"

definition resolveApiKey :: "window \<Rightarrow> app \<Rightarrow> app + string \<times> app" where
  "resolveApiKey w s =
     (case askAistudio w s of
        Inl s' \<Rightarrow> Inl s'
      | Inr s1 \<Rightarrow>
          let apiKey = (if customApiKey s = [] \<and> envApiKey w \<noteq> [] then envApiKey w
                        else customApiKey s)
          in if apiKey = [] \<and> window_aistudio w = None then
               let s2 = handleSetKey w s1;
                   s3 = s2\<lparr>trace := trace s2 @ [GetItem]\<rparr>;
                   apiKey' = (if localStorageWorks w
                              then (case storedKey s3 of None \<Rightarrow> [] | Some k \<Rightarrow> k)
                              else apiKey)
               in if apiKey' = [] then Inl (s3\<lparr>voiceError := Some ''No API Key set.''\<rparr>)
                  else Inr (apiKey', s3)
             else Inr (apiKey, s1))"

text \<open>
  The rest of \<open>connectVoice\<close>. Of the calls in its \<open>try\<close> block, \<open>getUserMedia\<close> is
  the one taken to fail. \<open>liveSessionRef\<close> holds, for the session promise, the key its
  client was made with.
\<close>

definition startVoice :: "window \<Rightarrow> string \<Rightarrow> app \<Rightarrow> app" where
  "startVoice w apiKey s =
     (let s1 = s\<lparr>isVoiceConnecting := True, voiceError := None,
                 trace := trace s @ [GetUserMedia]\<rparr>
      in if \<not> getUserMediaOk w then
           s1\<lparr>console := console s1 @ [''Voice Init Failed''],
              voiceError := Some ''Could not start voice'',
              isVoiceConnecting := False\<rparr>
         else
           let key = (if apiKey \<noteq> [] then apiKey else envApiKey w)
           in s1\<lparr>inputContextRef := True, audioContextRef := True,
                 liveSessionRef := Some key, trace := trace s1 @ [Connect key]\<rparr>)"

definition connectVoice :: "window \<Rightarrow> app \<Rightarrow> app" where
  "connectVoice w s =
     (case resolveApiKey w s of
        Inl s' \<Rightarrow> s'
      | Inr (apiKey, s') \<Rightarrow> startVoice w apiKey s')"

section \<open>Events\<close>

text \<open>
  Everything runs on one thread, one event at a time: a message from the session with the
  clock reading of its handler, the end of a source node, the session callbacks, the user's
  commands, and a render.
\<close>

datatype event =
    Message real message
  | Ended handle
  | Opened
  | Closed
  | Failed
  | DisconnectVoice
  | ConnectVoice window
  | SetKey window
  | Render

fun step :: "environment \<Rightarrow> event \<Rightarrow> app \<Rightarrow> app" where
  "step env (Message now m) s = onmessage env now m s"
| "step env (Ended h) s = onended h s"
| "step env Opened s = onopen s"
| "step env Closed s = onclose s"
| "step env Failed s = onerror s"
| "step env DisconnectVoice s = disconnectVoice s"
| "step env (ConnectVoice w) s = connectVoice w s"
| "step env (SetKey w) s = handleSetKey w s"
| "step env Render s = syncTasksRef s"

fun run :: "environment \<Rightarrow> event list \<Rightarrow> app \<Rightarrow> app" where
  "run env [] s = s"
| "run env (ev # evs) s = run env evs (step env ev s)"

fun interrupting :: "event \<Rightarrow> bool" where
  "interrupting (Message now m) = interrupted m"
| "interrupting ev = False"

text \<open>
  The effect that loads the stored key when the component is mounted (the tasks are loaded
  by the persistence layer, which is outside this development).
\<close>

definition loadApiKey :: "window \<Rightarrow> app \<Rightarrow> app" where
  "loadApiKey w s =
     (if localStorageWorks w then
        (case storedKey s of
           None \<Rightarrow> s
         | Some k \<Rightarrow> if k = [] then s else s\<lparr>customApiKey := k\<rparr>)
      else s\<lparr>console := console s @ [''LocalStorage unavailable for reading key'']\<rparr>)"

text \<open>The state before the component is mounted.\<close>

definition initial :: app where
  "initial =
     \<lparr>tasks = [], tasksRef = [], customApiKey = [], isVoiceActive = False,
      isVoiceConnecting = False, voiceError = None, isBotSpeaking = False,
      audioContextRef = False, inputContextRef = False, liveSessionRef = None,
      nextStartTimeRef = 0, audioSourcesRef = {}, sourcesCreated = 0, started = [],
      stopped = {}, console = [], sentToolResponses = [], uncaught = [], idCalls = 0,
      storedKey = None, trace = []\<rparr>"

section \<open>Sample inputs\<close>

text \<open>
  The clock readings and durations of the samples are small whole numbers, whose sums
  doubles give exactly: the addition of the samples is the exact one.
\<close>

lift_definition exact_add :: float_add is "\<lambda>t d. t + d"
  by simp

text \<open>
  A decoder that accepts one payload, as a buffer of one second, and rejects every other; a
  browser without the key-selection capability where the user types a key; the session
  that \<open>connectVoice\<close> and \<open>onopen\<close> set up there; and three kinds of message.
\<close>

definition sample_env :: environment where
  "sample_env =
     \<lparr>decode = (\<lambda>a. if a = ''AAAA'' then Some 1 else None),
      addition = exact_add,
      generateId = (\<lambda>k. replicate (Suc k) (CHR ''x'')),
      dateNow = (\<lambda>k. 1000 + k)\<rparr>"

definition sample_window :: window where
  "sample_window =
     \<lparr>window_aistudio = None, envApiKey = [], promptAnswer = Some ''key'',
      localStorageWorks = True, getUserMediaOk = True\<rparr>"

definition sample_session :: app where
  "sample_session =
     run sample_env [ConnectVoice sample_window, Opened] (loadApiKey sample_window initial)"

definition audio_message :: "string \<Rightarrow> message" where
  "audio_message a = \<lparr>audioData = Some a, interrupted = False, toolCall = None\<rparr>"

definition interruption_message :: message where
  "interruption_message = \<lparr>audioData = None, interrupted = True, toolCall = None\<rparr>"

definition tool_message :: "function_call list \<Rightarrow> message" where
  "tool_message fcs = \<lparr>audioData = None, interrupted = False, toolCall = Some (Some fcs)\<rparr>"

text \<open>Two fragments scheduled and still playing.\<close>

definition two_playing :: app where
  "two_playing =
     run sample_env [Message 0 (audio_message ''AAAA''), Message 0 (audio_message ''AAAA'')]
       sample_session"

text \<open>
  Entries of a tool-call batch: \<open>addTask\<close> and \<open>removeTask\<close> with their text, an entry
  without arguments, and an \<open>addTask\<close> whose arguments lack the text. Then a session with
  three tasks, added by tool calls and rendered.
\<close>

definition add_call :: "string \<Rightarrow> string \<Rightarrow> function_call" where
  "add_call i txt = \<lparr>fc_id = i, fc_name = ''addTask'', fc_args = Some [''text'' \<mapsto> txt]\<rparr>"

definition remove_call :: "string \<Rightarrow> string \<Rightarrow> function_call" where
  "remove_call i txt = \<lparr>fc_id = i, fc_name = ''removeTask'', fc_args = Some [''text'' \<mapsto> txt]\<rparr>"

definition three_tasks :: app where
  "three_tasks =
     run sample_env
       [Message 0 (tool_message [add_call ''a'' ''Milk shake'', add_call ''b'' ''Buy MILK and eggs'',
          add_call ''c'' ''Walk the dog'']), Render]
       sample_session"



text \<open>
  A second fragment that arrives when the clock has passed the end of the first, and a
  message without audio that arrives then.
\<close>

definition late_fragment :: app where
  "late_fragment =
     run sample_env [Message 0 (audio_message ''AAAA''), Message 5 (audio_message ''AAAA'')]
       sample_session"

definition idle_after_fragment :: app where
  "idle_after_fragment =
     run sample_env [Message 0 (audio_message ''AAAA''), Message 5 (tool_message [])]
       sample_session"






text \<open>
  A session where the two fragments were cut off by an interruption at clock reading 1, and
  the same session after two more fragments handled at clock reading 3.
\<close>

definition after_barge_in :: app where
  "after_barge_in = run sample_env [Message 1 interruption_message] two_playing"

definition resumed :: app where
  "resumed =
     run sample_env [Message 3 (audio_message ''AAAA''), Message 3 (audio_message ''AAAA'')]
       after_barge_in"

section \<open>The order of playback, as a property of the fragments started\<close>

text \<open>
  The entries of \<open>started\<close> are (source, start time, duration), in the order of the calls
  of \<open>start\<close>. The end the code computes for a fragment is its start plus its duration, in
  the addition of doubles. Fragments appended in order, between a value \<open>c\<close> of
  \<open>nextStartTimeRef\<close> and a later value \<open>c'\<close>: none starts before the computed end of
  one started before it, none starts before \<open>c\<close>, and no computed end lies after \<open>c'\<close>.
\<close>

definition appended_in_order ::
  "environment \<Rightarrow> real \<Rightarrow> (handle \<times> real \<times> real) list \<Rightarrow> real \<Rightarrow> bool" where
  "appended_in_order env c new c' =
     (sorted_wrt (\<lambda>(h, t, d) (h', t', d'). apply_add (addition env) t d \<le> t') new \<and>
      (\<forall>(h, t, d) \<in> set new. c \<le> t \<and> apply_add (addition env) t d \<le> c') \<and>
      c \<le> c')"

section \<open>What the sample states are\<close>

lemma sample_session_eq:
  "sample_session =
     initial\<lparr>customApiKey := ''key'', storedKey := Some ''key'', isVoiceActive := True,
             audioContextRef := True, inputContextRef := True, liveSessionRef := Some ''key'',
             trace := [Prompt, SetItem ''key'', GetItem, GetUserMedia, Connect ''key'']\<rparr>"
  by (simp add: sample_session_def sample_window_def initial_def loadApiKey_def connectVoice_def
      resolveApiKey_def askAistudio_def handleSetKey_def startVoice_def onopen_def Let_def)

lemma two_playing_eq:
  "two_playing =
     sample_session\<lparr>isBotSpeaking := True, nextStartTimeRef := 2, audioSourcesRef := {0, 1},
       sourcesCreated := 2, started := [(0, 0, 1), (1, 1, 1)]\<rparr>"
  by (simp add: two_playing_def sample_session_eq initial_def onmessage_def onmessage_audio_def
      onmessage_interrupted_def onmessage_toolCall_def audio_message_def sample_env_def exact_add.rep_eq Let_def
      insert_commute)

lemma late_fragment_eq:
  "late_fragment =
     sample_session\<lparr>isBotSpeaking := True, nextStartTimeRef := 6, audioSourcesRef := {0, 1},
       sourcesCreated := 2, started := [(0, 0, 1), (1, 5, 1)]\<rparr>"
  by (simp add: late_fragment_def sample_session_eq initial_def onmessage_def onmessage_audio_def
      onmessage_interrupted_def onmessage_toolCall_def audio_message_def sample_env_def exact_add.rep_eq Let_def
      insert_commute)

lemma idle_after_fragment_eq:
  "idle_after_fragment =
     sample_session\<lparr>isBotSpeaking := True, nextStartTimeRef := 1, audioSourcesRef := {0},
       sourcesCreated := 1, started := [(0, 0, 1)]\<rparr>"
  by (simp add: idle_after_fragment_def sample_session_eq initial_def onmessage_def
      onmessage_audio_def onmessage_interrupted_def onmessage_toolCall_def audio_message_def
      tool_message_def sample_env_def exact_add.rep_eq Let_def)

lemma three_tasks_eq:
  "three_tasks =
     sample_session\<lparr>
       tasks := [\<lparr>task_id = ''xxx'', task_text = ''Walk the dog'', completed = False, createdAt = 1002\<rparr>,
                 \<lparr>task_id = ''xx'', task_text = ''Buy MILK and eggs'', completed = False, createdAt = 1001\<rparr>,
                 \<lparr>task_id = ''x'', task_text = ''Milk shake'', completed = False, createdAt = 1000\<rparr>],
       tasksRef := [\<lparr>task_id = ''xxx'', task_text = ''Walk the dog'', completed = False, createdAt = 1002\<rparr>,
                 \<lparr>task_id = ''xx'', task_text = ''Buy MILK and eggs'', completed = False, createdAt = 1001\<rparr>,
                 \<lparr>task_id = ''x'', task_text = ''Milk shake'', completed = False, createdAt = 1000\<rparr>],
       sentToolResponses := [\<lparr>resp_id = ''a'', resp_name = ''addTask'', resp_result = ''Added task: Milk shake''\<rparr>,
          \<lparr>resp_id = ''b'', resp_name = ''addTask'', resp_result = ''Added task: Buy MILK and eggs''\<rparr>,
          \<lparr>resp_id = ''c'', resp_name = ''addTask'', resp_result = ''Added task: Walk the dog''\<rparr>],
       idCalls := 3\<rparr>"
  by (simp add: three_tasks_def sample_session_eq initial_def onmessage_def onmessage_audio_def
      onmessage_interrupted_def onmessage_toolCall_def tool_message_def sample_env_def exact_add.rep_eq Let_def
      add_call_def callTool_def addTask_def trim_def isWhitespace_def sendToolResponse_def
      syncTasksRef_def numeral_3_eq_3 numeral_2_eq_2)


lemma after_barge_in_eq:
  "after_barge_in =
     sample_session\<lparr>isBotSpeaking := False, nextStartTimeRef := 0, audioSourcesRef := {},
       sourcesCreated := 2, started := [(0, 0, 1), (1, 1, 1)], stopped := {0, 1}\<rparr>"
  by (simp add: after_barge_in_def two_playing_eq sample_session_eq initial_def onmessage_def
      onmessage_audio_def onmessage_interrupted_def onmessage_toolCall_def interrupt_def
      interruption_message_def)

lemma resumed_eq:
  "resumed =
     sample_session\<lparr>isBotSpeaking := True, nextStartTimeRef := 5, audioSourcesRef := {2, 3},
       sourcesCreated := 4, started := [(0, 0, 1), (1, 1, 1), (2, 3, 1), (3, 4, 1)],
       stopped := {0, 1}\<rparr>"
  by (simp add: resumed_def after_barge_in_eq sample_session_eq initial_def onmessage_def
      onmessage_audio_def onmessage_interrupted_def onmessage_toolCall_def audio_message_def
      sample_env_def exact_add.rep_eq Let_def insert_commute)

section \<open>What the tool calls leave alone\<close>

text \<open>
  A tool call changes the task list and the count of generated identifiers, the loop adds
  the responses it sends and the exception that ends it; every other component of the state
  stays as it is.
\<close>

lemma callTool_frame:
  "callTool env fc s = Inr (r, s') \<Longrightarrow> s' = s\<lparr>tasks := tasks s', idCalls := idCalls s'\<rparr>"
  by (auto simp: callTool_def addTask_def deleteTask_def clearAllTasks_def Let_def
      split: if_splits option.splits)

lemma functionCalls_frame:
  "functionCalls env fcs s =
     s\<lparr>tasks := tasks (functionCalls env fcs s), idCalls := idCalls (functionCalls env fcs s),
       sentToolResponses := sentToolResponses (functionCalls env fcs s),
       uncaught := uncaught (functionCalls env fcs s)\<rparr>"
proof (induction fcs arbitrary: s)
  case Nil
  show ?case by simp
next
  case (Cons fc fcs)
  show ?case
  proof (cases "callTool env fc s")
    case (Inl e)
    then show ?thesis by simp
  next
    case (Inr p)
    obtain r s' where p: "p = (r, s')" by (cases p)
    have s': "s' = s\<lparr>tasks := tasks s', idCalls := idCalls s'\<rparr>"
      using Inr p callTool_frame by blast
    have "functionCalls env (fc # fcs) s = functionCalls env fcs (sendToolResponse fc r s')"
      using Inr p by simp
    then show ?thesis
      by (subst (1 2 3 4 5) \<open>functionCalls env (fc # fcs) s = _\<close>, subst Cons.IH, subst s')
         (simp add: sendToolResponse_def)
  qed
qed

lemma onmessage_toolCall_frame:
  "onmessage_toolCall env m s =
     s\<lparr>tasks := tasks (onmessage_toolCall env m s),
       idCalls := idCalls (onmessage_toolCall env m s),
       sentToolResponses := sentToolResponses (onmessage_toolCall env m s),
       uncaught := uncaught (onmessage_toolCall env m s)\<rparr>"
  unfolding onmessage_toolCall_def using functionCalls_frame [of env _ s]
  by (auto split: option.splits)

lemma toolCall_keeps:
  "nextStartTimeRef (onmessage_toolCall env m s) = nextStartTimeRef s"
  "audioSourcesRef (onmessage_toolCall env m s) = audioSourcesRef s"
  "isBotSpeaking (onmessage_toolCall env m s) = isBotSpeaking s"
  "started (onmessage_toolCall env m s) = started s"
  "stopped (onmessage_toolCall env m s) = stopped s"
  "console (onmessage_toolCall env m s) = console s"
  "isVoiceActive (onmessage_toolCall env m s) = isVoiceActive s"
  "isVoiceConnecting (onmessage_toolCall env m s) = isVoiceConnecting s"
  "liveSessionRef (onmessage_toolCall env m s) = liveSessionRef s"
  "sourcesCreated (onmessage_toolCall env m s) = sourcesCreated s"
  by (subst onmessage_toolCall_frame, simp)+

section \<open>Interruption\<close>

text \<open>
  Claim C2. After the interruption block has run, from any state and so with any number of
  active sources, every source that was in \<open>audioSourcesRef\<close> has been stopped, the set is
  empty, \<open>nextStartTimeRef\<close> is 0 and \<open>isBotSpeaking\<close> is false. The same holds after the
  whole handler of a message that carries the interruption flag, whatever else the message
  carries.
\<close>

theorem interrupt_flushes:
  "audioSourcesRef s \<subseteq> stopped (interrupt s) \<and> audioSourcesRef (interrupt s) = {} \<and>
   nextStartTimeRef (interrupt s) = 0 \<and> \<not> isBotSpeaking (interrupt s) \<and>
   (interrupted m \<longrightarrow>
      audioSourcesRef s \<subseteq> stopped (onmessage env now m s) \<and>
      audioSourcesRef (onmessage env now m s) = {} \<and>
      nextStartTimeRef (onmessage env now m s) = 0 \<and>
      \<not> isBotSpeaking (onmessage env now m s))"
  by (auto simp: interrupt_def onmessage_def toolCall_keeps onmessage_interrupted_def
      onmessage_audio_def Let_def split: option.splits)

theorem interrupt_flushes_witness:
  "interrupted interruption_message \<and> audioSourcesRef two_playing = {0, 1} \<and>
   stopped (onmessage sample_env 1 interruption_message two_playing) = {0, 1} \<and>
   audioSourcesRef (onmessage sample_env 1 interruption_message two_playing) = {} \<and>
   nextStartTimeRef (onmessage sample_env 1 interruption_message two_playing) = 0 \<and>
   \<not> isBotSpeaking (onmessage sample_env 1 interruption_message two_playing)"
  using interrupt_flushes [of two_playing interruption_message sample_env 1]
  by (simp add: two_playing_eq sample_session_eq initial_def interruption_message_def
      onmessage_def onmessage_audio_def onmessage_interrupted_def onmessage_toolCall_def
      interrupt_def)

section \<open>The schedule\<close>

lemma connectVoice_keeps:
  "nextStartTimeRef (connectVoice w s) = nextStartTimeRef s"
  "started (connectVoice w s) = started s"
  "audioSourcesRef (connectVoice w s) = audioSourcesRef s"
  "isBotSpeaking (connectVoice w s) = isBotSpeaking s"
  by (simp_all add: connectVoice_def resolveApiKey_def askAistudio_def handleSetKey_def
      startVoice_def Let_def split: option.splits sum.splits prod.splits)

lemma handleSetKey_keeps:
  "nextStartTimeRef (handleSetKey w s) = nextStartTimeRef s"
  "started (handleSetKey w s) = started s"
  "audioSourcesRef (handleSetKey w s) = audioSourcesRef s"
  "isBotSpeaking (handleSetKey w s) = isBotSpeaking s"
  by (simp_all add: handleSetKey_def Let_def split: option.splits)

lemma apply_add_ge: "0 \<le> d \<Longrightarrow> t \<le> apply_add f t d"
  using apply_add [of f] by simp

lemma add_max_ge:
  assumes "0 \<le> d"
  shows "c \<le> apply_add f (max c now) d" and "now \<le> apply_add f (max c now) d"
  using apply_add_ge [OF assms, of "max c now" f] by simp_all

lemma onmessage_audio_cursor:
  assumes "\<forall>a d. decode env a = Some d \<longrightarrow> 0 \<le> d"
  shows "nextStartTimeRef s \<le> nextStartTimeRef (onmessage_audio env now m s)"
proof -
  have "0 \<le> d" if "decode env a = Some d" for a d using assms that by blast
  then show ?thesis
    by (auto simp: onmessage_audio_def Let_def add_max_ge split: option.splits)
qed

lemma step_cursor:
  assumes "\<forall>a d. decode env a = Some d \<longrightarrow> 0 \<le> d" and "\<not> interrupting ev"
  shows "nextStartTimeRef s \<le> nextStartTimeRef (step env ev s)"
proof (cases ev)
  case (Message now m)
  then show ?thesis
    using assms onmessage_audio_cursor [OF assms(1), of s now m]
    by (simp add: onmessage_def toolCall_keeps onmessage_interrupted_def)
qed (simp_all add: onended_def onopen_def onclose_def onerror_def disconnectVoice_def
      connectVoice_keeps handleSetKey_keeps syncTasksRef_def Let_def)

lemma appended_in_order_Nil: "c \<le> c' \<Longrightarrow> appended_in_order env c [] c'"
  by (simp add: appended_in_order_def)

lemma appended_in_order_append:
  assumes "appended_in_order env c xs c1" and "appended_in_order env c1 ys c2"
  shows "appended_in_order env c (xs @ ys) c2"
  using assms by (fastforce simp: appended_in_order_def sorted_wrt_append)

lemma onmessage_audio_appends:
  assumes "\<forall>a d. decode env a = Some d \<longrightarrow> 0 \<le> d"
  shows "\<exists>new. started (onmessage_audio env now m s) = started s @ new \<and>
           appended_in_order env (nextStartTimeRef s) new
             (nextStartTimeRef (onmessage_audio env now m s))"
proof -
  have nn: "0 \<le> d" if "decode env a = Some d" for a d using assms that by blast
  show ?thesis
  proof (cases "\<exists>a d. audioData m = Some a \<and> a \<noteq> [] \<and> audioContextRef s \<and> decode env a = Some d")
    case True
    then obtain a d where a: "audioData m = Some a" "a \<noteq> []" "audioContextRef s"
      "decode env a = Some d" by blast
    have "started (onmessage_audio env now m s) =
            started s @ [(sourcesCreated s, max (nextStartTimeRef s) now, d)]"
      "nextStartTimeRef (onmessage_audio env now m s) =
         apply_add (addition env) (max (nextStartTimeRef s) now) d"
      using a by (simp_all add: onmessage_audio_def Let_def)
    moreover have "appended_in_order env (nextStartTimeRef s)
        [(sourcesCreated s, max (nextStartTimeRef s) now, d)]
        (apply_add (addition env) (max (nextStartTimeRef s) now) d)"
      using nn [OF a(4)] by (simp add: appended_in_order_def add_max_ge)
    ultimately show ?thesis by simp
  next
    case False
    then have "started (onmessage_audio env now m s) = started s @ []"
      by (auto simp: onmessage_audio_def Let_def split: option.splits)
    then show ?thesis
      using onmessage_audio_cursor [OF assms, of s now m] appended_in_order_Nil by blast
  qed
qed

lemma step_appends:
  assumes "\<forall>a d. decode env a = Some d \<longrightarrow> 0 \<le> d" and "\<not> interrupting ev"
  shows "\<exists>new. started (step env ev s) = started s @ new \<and>
           appended_in_order env (nextStartTimeRef s) new (nextStartTimeRef (step env ev s))"
proof (cases ev)
  case (Message now m)
  then show ?thesis
    using assms(2) onmessage_audio_appends [OF assms(1), of now m s]
    by (simp add: onmessage_def toolCall_keeps onmessage_interrupted_def)
qed (simp_all add: appended_in_order_Nil onended_def onopen_def onclose_def onerror_def
      disconnectVoice_def connectVoice_keeps handleSetKey_keeps syncTasksRef_def Let_def)

lemma run_appends:
  assumes "\<forall>a d. decode env a = Some d \<longrightarrow> 0 \<le> d"
  shows "\<forall>ev\<in>set evs. \<not> interrupting ev \<Longrightarrow>
         \<exists>new. started (run env evs s) = started s @ new \<and>
           appended_in_order env (nextStartTimeRef s) new (nextStartTimeRef (run env evs s))"
proof (induction evs arbitrary: s)
  case Nil
  then show ?case by (simp add: appended_in_order_Nil)
next
  case (Cons ev evs)
  obtain xs where xs: "started (step env ev s) = started s @ xs"
    "appended_in_order env (nextStartTimeRef s) xs (nextStartTimeRef (step env ev s))"
    using step_appends [OF assms, of ev s] Cons.prems by auto
  obtain ys where ys: "started (run env evs (step env ev s)) = started (step env ev s) @ ys"
    "appended_in_order env (nextStartTimeRef (step env ev s)) ys
       (nextStartTimeRef (run env evs (step env ev s)))"
    using Cons.IH [of "step env ev s"] Cons.prems by auto
  have "started (run env (ev # evs) s) = started s @ (xs @ ys)"
    using xs(1) ys(1) by simp
  moreover have "appended_in_order env (nextStartTimeRef s) (xs @ ys)
      (nextStartTimeRef (run env (ev # evs) s))"
    using appended_in_order_append [OF xs(2) ys(2)] by simp
  ultimately show ?case by blast
qed

lemma onmessage_schedules:
  assumes "audioData m = Some a" "a \<noteq> []" "audioContextRef s" "decode env a = Some d"
  shows "started (onmessage env now m s) =
           started s @ [(sourcesCreated s, max (nextStartTimeRef s) now, d)]"
    and "\<not> interrupted m \<Longrightarrow>
           nextStartTimeRef (onmessage env now m s) =
             apply_add (addition env) (max (nextStartTimeRef s) now) d"
  using assms
  by (simp_all add: onmessage_def toolCall_keeps onmessage_interrupted_def onmessage_audio_def
      interrupt_def Let_def)

text \<open>
  Claim C1, as stated: each fragment starts at the start of the one before plus the
  duration of the one before. It fails when the clock has passed that time: two fragments of
  one second each, the first handled at clock reading 0 and the second at 5, start at 0 and
  at 5.
\<close>

theorem late_fragment_leaves_gap:
  "started late_fragment = [(0, 0, 1), (1, 5, 1)] \<and> (5::real) \<noteq> 0 + 1"
  by (simp add: late_fragment_eq)

text \<open>
  Claim C1, amended. With durations that are not negative, from any state (also one left by
  an interruption) and across any sequence of events without an interrupting message, the
  fragments started are appended to \<open>started\<close> in the order of arrival, and none of them
  starts before the end the code computes for one started before it in the sequence (its
  start plus its duration, added as doubles), nor before the value \<open>nextStartTimeRef\<close> had
  at the beginning. A fragment that decodes is started at the greater of
  \<open>nextStartTimeRef\<close> and the clock reading, so at the computed end of the one before
  when nothing has raised \<open>nextStartTimeRef\<close> since and the clock has not passed it, and
  later otherwise; \<open>nextStartTimeRef\<close> becomes that start plus the duration.
\<close>

theorem fragments_in_order:
  assumes "\<forall>a d. decode env a = Some d \<longrightarrow> 0 \<le> d"
    and "\<forall>ev\<in>set evs. \<not> interrupting ev"
  shows "(\<exists>new. started (run env evs s) = started s @ new \<and>
            appended_in_order env (nextStartTimeRef s) new (nextStartTimeRef (run env evs s))) \<and>
         (audioData m = Some a \<and> a \<noteq> [] \<and> audioContextRef s' \<and> decode env a = Some d \<longrightarrow>
            started (onmessage env now m s') =
              started s' @ [(sourcesCreated s', max (nextStartTimeRef s') now, d)] \<and>
            (\<not> interrupted m \<longrightarrow>
               nextStartTimeRef (onmessage env now m s') =
                 apply_add (addition env) (max (nextStartTimeRef s') now) d))"
  using run_appends [OF assms] onmessage_schedules [of m a s' env d now] by blast

theorem fragments_in_order_witness:
  "nextStartTimeRef after_barge_in = 0 \<and>
   started after_barge_in = [(0, 0, 1), (1, 1, 1)] \<and>
   started resumed = started after_barge_in @ [(2, 3, 1), (3, 4, 1)] \<and>
   nextStartTimeRef resumed = 5 \<and>
   appended_in_order sample_env 0 [(2, 3, 1), (3, 4, 1)] 5 \<and>
   started (onmessage sample_env 1 (audio_message ''AAAA'') two_playing) =
     [(0, 0, 1), (1, 1, 1), (2, 2, 1)] \<and>
   nextStartTimeRef (onmessage sample_env 1 (audio_message ''AAAA'') two_playing) = 3"
proof -
  have h1: "\<forall>a d. decode sample_env a = Some d \<longrightarrow> 0 \<le> d"
    by (simp add: sample_env_def exact_add.rep_eq)
  have h2: "\<forall>ev\<in>set [Message 3 (audio_message ''AAAA''), Message 3 (audio_message ''AAAA'')].
              \<not> interrupting ev"
    by (simp add: audio_message_def)
  have c: ?thesis
    by (simp add: resumed_eq after_barge_in_eq two_playing_eq sample_session_eq initial_def
        audio_message_def sample_env_def exact_add.rep_eq appended_in_order_def onmessage_def
        onmessage_audio_def onmessage_interrupted_def onmessage_toolCall_def Let_def)
  show ?thesis
    using fragments_in_order [OF h1 h2, where s = after_barge_in
        and m = "audio_message ''AAAA''" and a = "''AAAA''" and s' = two_playing and d = 1
        and now = 1] c
    by blast
qed

text \<open>
  Claim C3, as stated: \<open>nextStartTimeRef\<close> is at every time at or above the clock. It is
  not: nothing moves it while no fragment arrives. After a fragment of one second handled
  at clock reading 0, a message without audio handled at 5 finds and leaves it at 1.
\<close>

theorem cursor_behind_clock:
  "nextStartTimeRef idle_after_fragment = 1 \<and> (1::real) < 5"
  by (simp add: idle_after_fragment_eq)

text \<open>
  Claim C3, amended. With durations that are not negative, no event lowers
  \<open>nextStartTimeRef\<close> except a message that carries the interruption flag, which sets it to
  0; and right after the handler of a message with audio and without that flag, it is at or
  above the clock reading the handler took.
\<close>

theorem cursor_monotone:
  assumes "\<forall>a d. decode env a = Some d \<longrightarrow> 0 \<le> d"
  shows "(\<not> interrupting ev \<longrightarrow> nextStartTimeRef s \<le> nextStartTimeRef (step env ev s)) \<and>
         (interrupting ev \<longrightarrow> nextStartTimeRef (step env ev s) = 0) \<and>
         (audioData m = Some a \<and> a \<noteq> [] \<and> audioContextRef s \<and> \<not> interrupted m \<longrightarrow>
            now \<le> nextStartTimeRef (onmessage env now m s))"
proof -
  have nn: "0 \<le> d" if "decode env a = Some d" for a d using assms that by blast
  have 1: "\<not> interrupting ev \<longrightarrow> nextStartTimeRef s \<le> nextStartTimeRef (step env ev s)"
    using step_cursor [OF assms] by blast
  have 2: "interrupting ev \<longrightarrow> nextStartTimeRef (step env ev s) = 0"
    by (cases ev)
      (simp_all add: onmessage_def toolCall_keeps onmessage_interrupted_def interrupt_def)
  have 3: "audioData m = Some a \<and> a \<noteq> [] \<and> audioContextRef s \<and> \<not> interrupted m \<longrightarrow>
             now \<le> nextStartTimeRef (onmessage env now m s)"
    using nn
    by (auto simp: onmessage_def toolCall_keeps onmessage_interrupted_def onmessage_audio_def
        Let_def add_max_ge split: option.splits)
  from 1 2 3 show ?thesis by blast
qed

theorem cursor_monotone_witness:
  "nextStartTimeRef two_playing = 2 \<and>
   nextStartTimeRef (step sample_env (Message 5 (audio_message ''AAAA'')) two_playing) = 6 \<and>
   nextStartTimeRef (step sample_env (Message 5 interruption_message) two_playing) = 0"
proof -
  have h: "\<forall>a d. decode sample_env a = Some d \<longrightarrow> 0 \<le> d"
    by (simp add: sample_env_def exact_add.rep_eq)
  show ?thesis
    using cursor_monotone [OF h, where ev = "Message 5 (audio_message ''AAAA'')"
        and s = two_playing and m = "audio_message ''AAAA''" and a = "''AAAA''" and now = 5]
      cursor_monotone [OF h, where ev = "Message 5 interruption_message" and s = two_playing]
    by (simp add: two_playing_eq sample_session_eq initial_def audio_message_def
        interruption_message_def sample_env_def exact_add.rep_eq onmessage_def onmessage_audio_def
        onmessage_interrupted_def onmessage_toolCall_def interrupt_def Let_def)
qed

section \<open>The speaking indicator\<close>

text \<open>
  One half of the equivalence holds in every state that events lead to: while a source is
  in \<open>audioSourcesRef\<close>, \<open>isBotSpeaking\<close> is set.
\<close>

lemma step_speaking:
  assumes "audioSourcesRef s \<noteq> {} \<longrightarrow> isBotSpeaking s"
  shows "audioSourcesRef (step env ev s) \<noteq> {} \<longrightarrow> isBotSpeaking (step env ev s)"
proof (cases ev)
  case (Message now m)
  then show ?thesis
    using assms
    by (auto simp: onmessage_def toolCall_keeps onmessage_interrupted_def interrupt_def
        onmessage_audio_def Let_def split: option.splits if_splits)
next
  case (Ended h)
  then show ?thesis using assms by (auto simp: onended_def Let_def)
qed (use assms in \<open>simp_all add: onopen_def onclose_def onerror_def disconnectVoice_def
      connectVoice_keeps handleSetKey_keeps syncTasksRef_def\<close>)

lemma run_speaking:
  "(audioSourcesRef s \<noteq> {} \<longrightarrow> isBotSpeaking s) \<Longrightarrow>
   audioSourcesRef (run env evs s) \<noteq> {} \<longrightarrow> isBotSpeaking (run env evs s)"
proof (induction evs arbitrary: s)
  case Nil
  then show ?case by simp
next
  case (Cons ev evs)
  then show ?case using step_speaking [of s env ev] by simp
qed

text \<open>
  Claim C4: \<open>isBotSpeaking\<close> holds exactly when \<open>audioSourcesRef\<close> is not empty, and is
  not set when no fragment was scheduled. The handler sets it before it tries to decode and
  does not take it back when the decoding fails: in a session where nothing is playing, a
  message whose payload does not decode leaves the indicator set, with no source scheduled
  and none whose end could clear it.
\<close>

theorem speaking_without_sources:
  "decode sample_env ''!!!!'' = None \<and>
   \<not> isBotSpeaking sample_session \<and> audioSourcesRef sample_session = {} \<and>
   isBotSpeaking (onmessage sample_env 0 (audio_message ''!!!!'') sample_session) \<and>
   audioSourcesRef (onmessage sample_env 0 (audio_message ''!!!!'') sample_session) = {} \<and>
   started (onmessage sample_env 0 (audio_message ''!!!!'') sample_session) = []"
  by (simp add: sample_session_eq initial_def onmessage_def onmessage_audio_def
      onmessage_interrupted_def onmessage_toolCall_def audio_message_def sample_env_def exact_add.rep_eq Let_def)

section \<open>Teardown and interruption\<close>

text \<open>
  Claim C5: teardown has the effect of the interruption on the scheduler. Both stop the
  active sources, empty the set and clear the indicator, but \<open>disconnectVoice\<close> does not
  touch \<open>nextStartTimeRef\<close>: with two fragments of one second scheduled it stays at 2,
  where the interruption sets it to 0.
\<close>

theorem disconnectVoice_keeps_cursor:
  "nextStartTimeRef two_playing = 2 \<and>
   nextStartTimeRef (disconnectVoice two_playing) = 2 \<and>
   nextStartTimeRef (interrupt two_playing) = 0 \<and>
   audioSourcesRef (disconnectVoice two_playing) = {} \<and>
   stopped (disconnectVoice two_playing) = {0, 1} \<and>
   \<not> isBotSpeaking (disconnectVoice two_playing)"
  by (simp add: two_playing_eq sample_session_eq initial_def disconnectVoice_def interrupt_def)

section \<open>A fragment that does not decode\<close>

text \<open>
  Claim C6, as stated: the failed decoding leaves all other state unchanged. The handler
  has raised \<open>nextStartTimeRef\<close> to the clock reading before it decodes: from 0 to 5 here.
\<close>

theorem failed_decode_moves_cursor:
  "decode sample_env ''!!!!'' = None \<and> nextStartTimeRef sample_session = 0 \<and>
   nextStartTimeRef (onmessage sample_env 5 (audio_message ''!!!!'') sample_session) = 5"
  by (simp add: sample_session_eq initial_def onmessage_def onmessage_audio_def
      onmessage_interrupted_def onmessage_toolCall_def audio_message_def sample_env_def exact_add.rep_eq Let_def)

text \<open>
  Claim C6, amended. When the fragment of a message that carries nothing else does not
  decode, the failure is written to the console, no source is created, started or added to
  \<open>audioSourcesRef\<close>, the session stays as it is (\<open>isVoiceActive\<close>, \<open>liveSessionRef\<close>),
  and \<open>nextStartTimeRef\<close> becomes the greater of itself and the clock reading. Apart from
  \<open>isBotSpeaking\<close>, about which nothing is said, no other component of the state changes.
\<close>

theorem failed_decode_isolated:
  assumes "audioData m = Some a" and "a \<noteq> []" and "audioContextRef s"
    and "decode env a = None" and "\<not> interrupted m" and "toolCall m = None"
  shows "(onmessage env now m s)\<lparr>isBotSpeaking := b\<rparr> =
           s\<lparr>nextStartTimeRef := max (nextStartTimeRef s) now,
             console := console s @ [''Audio Decode Error''],
             isBotSpeaking := b\<rparr> \<and>
         started (onmessage env now m s) = started s \<and>
         audioSourcesRef (onmessage env now m s) = audioSourcesRef s \<and>
         sourcesCreated (onmessage env now m s) = sourcesCreated s \<and>
         isVoiceActive (onmessage env now m s) = isVoiceActive s \<and>
         liveSessionRef (onmessage env now m s) = liveSessionRef s"
  using assms
  by (simp add: onmessage_def onmessage_audio_def onmessage_interrupted_def
      onmessage_toolCall_def Let_def)

theorem failed_decode_isolated_witness:
  "(onmessage sample_env 5 (audio_message ''!!!!'') two_playing)\<lparr>isBotSpeaking := True\<rparr> =
     two_playing\<lparr>nextStartTimeRef := 5, console := [''Audio Decode Error''],
       isBotSpeaking := True\<rparr> \<and>
   started (onmessage sample_env 5 (audio_message ''!!!!'') two_playing) =
     [(0, 0, 1), (1, 1, 1)] \<and>
   audioSourcesRef (onmessage sample_env 5 (audio_message ''!!!!'') two_playing) = {0, 1} \<and>
   isVoiceActive (onmessage sample_env 5 (audio_message ''!!!!'') two_playing)"
proof -
  have h: "audioData (audio_message ''!!!!'') = Some ''!!!!''" "''!!!!'' \<noteq> []"
    "audioContextRef two_playing" "decode sample_env ''!!!!'' = None"
    "\<not> interrupted (audio_message ''!!!!'')" "toolCall (audio_message ''!!!!'') = None"
    by (simp_all add: audio_message_def two_playing_eq sample_session_eq initial_def
        sample_env_def exact_add.rep_eq)
  show ?thesis
    using failed_decode_isolated [OF h, where now = 5 and b = True]
    by (simp add: two_playing_eq sample_session_eq initial_def)
qed

section \<open>The string methods\<close>

lemma dropWhile_all: "(\<forall>x\<in>set (dropWhile P xs). P x) \<longleftrightarrow> (\<forall>x\<in>set xs. P x)"
  by (induction xs) auto

lemma trim_empty_iff: "trim s = [] \<longleftrightarrow> (\<forall>c\<in>set s. isWhitespace c)"
  by (simp add: trim_def dropWhile_all)

lemma startsWith_iff: "startsWith s sub \<longleftrightarrow> (\<exists>q. s = sub @ q)"
  by (induction s sub rule: startsWith.induct) auto

lemma str_includes_iff: "str_includes s sub \<longleftrightarrow> (\<exists>p q. s = p @ sub @ q)"
proof (induction s)
  case Nil
  then show ?case by auto
next
  case (Cons c s)
  show ?case
  proof
    assume "str_includes (c # s) sub"
    then consider "startsWith (c # s) sub" | "str_includes s sub" by auto
    then show "\<exists>p q. c # s = p @ sub @ q"
    proof cases
      case 1
      then obtain q where "c # s = sub @ q" using startsWith_iff by blast
      then have "c # s = [] @ sub @ q" by simp
      then show ?thesis by blast
    next
      case 2
      then obtain p q where "s = p @ sub @ q" using Cons.IH by blast
      then have "c # s = (c # p) @ sub @ q" by simp
      then show ?thesis by blast
    qed
  next
    assume "\<exists>p q. c # s = p @ sub @ q"
    then obtain p q where pq: "c # s = p @ sub @ q" by blast
    show "str_includes (c # s) sub"
    proof (cases p)
      case Nil
      then have "startsWith (c # s) sub" using pq startsWith_iff by auto
      then show ?thesis by simp
    next
      case (Cons c' p')
      then have "s = p' @ sub @ q" using pq by simp
      then have "str_includes s sub" using Cons.IH by blast
      then show ?thesis by simp
    qed
  qed
qed

section \<open>The tool calls\<close>

lemma find_split:
  "find P xs = Some t \<Longrightarrow> \<exists>pre post. xs = pre @ t # post \<and> P t \<and> (\<forall>u\<in>set pre. \<not> P u)"
proof (induction xs)
  case Nil
  then show ?case by simp
next
  case (Cons x xs)
  show ?case
  proof (cases "P x")
    case True
    then have "x = t" using Cons.prems by simp
    then have "x # xs = [] @ t # xs \<and> P t \<and> (\<forall>u\<in>set []. \<not> P u)" using True by simp
    then show ?thesis by blast
  next
    case False
    then have "find P xs = Some t" using Cons.prems by simp
    then obtain pre post where "xs = pre @ t # post" "P t" "\<forall>u\<in>set pre. \<not> P u"
      using Cons.IH by blast
    then have "x # xs = (x # pre) @ t # post \<and> P t \<and> (\<forall>u\<in>set (x # pre). \<not> P u)"
      using False by simp
    then show ?thesis by blast
  qed
qed

lemma filter_distinct_id:
  assumes "distinct (map task_id (pre @ t # post))"
  shows "filter (\<lambda>u. task_id u \<noteq> task_id t) (pre @ t # post) = pre @ post"
proof -
  have "\<forall>u\<in>set pre. task_id u \<noteq> task_id t" "\<forall>u\<in>set post. task_id u \<noteq> task_id t"
    using assms by (force simp: image_iff)+
  then show ?thesis by simp
qed

lemma before_toolCall_keeps:
  "tasks (onmessage_interrupted m (onmessage_audio env now m s)) = tasks s"
  "tasksRef (onmessage_interrupted m (onmessage_audio env now m s)) = tasksRef s"
  "idCalls (onmessage_interrupted m (onmessage_audio env now m s)) = idCalls s"
  "sentToolResponses (onmessage_interrupted m (onmessage_audio env now m s)) = sentToolResponses s"
  "uncaught (onmessage_interrupted m (onmessage_audio env now m s)) = uncaught s"
  by (simp_all add: onmessage_interrupted_def onmessage_audio_def interrupt_def Let_def
      split: option.splits)

lemma functionCalls_removeTask:
  assumes "fc_name fc = ''removeTask''" and "fc_args fc = Some args" and "args ''text'' = Some txt"
  shows
    "(\<exists>pre t post.
        tasksRef s = pre @ t # post \<and>
        (\<forall>u\<in>set pre. \<not> (\<exists>p q. toLowerCase (task_text u) = p @ toLowerCase txt @ q)) \<and>
        (\<exists>p q. toLowerCase (task_text t) = p @ toLowerCase txt @ q) \<and>
        tasks (functionCalls env [fc] s) = filter (\<lambda>u. task_id u \<noteq> task_id t) (tasks s) \<and>
        sentToolResponses (functionCalls env [fc] s) =
          sentToolResponses s @
            [\<lparr>resp_id = fc_id fc, resp_name = ''removeTask'',
              resp_result = ''Removed task: '' @ task_text t\<rparr>]) \<or>
     ((\<forall>u\<in>set (tasksRef s). \<not> (\<exists>p q. toLowerCase (task_text u) = p @ toLowerCase txt @ q)) \<and>
        tasks (functionCalls env [fc] s) = tasks s \<and>
        sentToolResponses (functionCalls env [fc] s) =
          sentToolResponses s @
            [\<lparr>resp_id = fc_id fc, resp_name = ''removeTask'',
              resp_result = ''Could not find task matching '' @ txt\<rparr>])"
proof (cases "find (\<lambda>t. str_includes (toLowerCase (task_text t)) (toLowerCase txt)) (tasksRef s)")
  case None
  then have "\<forall>u\<in>set (tasksRef s). \<not> str_includes (toLowerCase (task_text u)) (toLowerCase txt)"
    by (simp add: find_None_iff)
  then have "\<forall>u\<in>set (tasksRef s). \<not> (\<exists>p q. toLowerCase (task_text u) = p @ toLowerCase txt @ q)"
    by (simp add: str_includes_iff)
  moreover have "callTool env fc s = Inr (''Could not find task matching '' @ txt, s)"
    using assms None by (simp add: callTool_def)
  ultimately show ?thesis using assms(1) by (simp add: sendToolResponse_def)
next
  case (Some t)
  then obtain pre post where sp: "tasksRef s = pre @ t # post"
      "str_includes (toLowerCase (task_text t)) (toLowerCase txt)"
      "\<forall>u\<in>set pre. \<not> str_includes (toLowerCase (task_text u)) (toLowerCase txt)"
    using find_split [OF Some] by blast
  have "callTool env fc s = Inr (''Removed task: '' @ task_text t, deleteTask (task_id t) s)"
    using assms Some by (simp add: callTool_def)
  then have "tasks (functionCalls env [fc] s) = filter (\<lambda>u. task_id u \<noteq> task_id t) (tasks s)"
    "sentToolResponses (functionCalls env [fc] s) =
          sentToolResponses s @
            [\<lparr>resp_id = fc_id fc, resp_name = ''removeTask'',
              resp_result = ''Removed task: '' @ task_text t\<rparr>]"
    using assms(1) by (simp_all add: sendToolResponse_def deleteTask_def)
  then show ?thesis using sp unfolding str_includes_iff by blast
qed













text \<open>
  What a \<open>removeTask\<close> call with a text does, in terms of \<open>tasksRef\<close>, the mirror of
  the tasks as of the last render: either the tasks of \<open>tasksRef\<close> split at the first one
  whose text, in lower case, contains the argument in lower case; every task with the
  identifier of that one is filtered out of \<open>tasks\<close>, so that it is gone (and it alone,
  when \<open>tasksRef\<close> mirrors \<open>tasks\<close> and identifiers are distinct), and the response
  carries \<open>Removed task:\<close> and its text; or no task of \<open>tasksRef\<close> contains the
  argument, \<open>tasks\<close> is unchanged and the response is \<open>Could not find task matching\<close>
  and the argument.
\<close>

lemma removeTask_on_mirror:
  assumes "toolCall m = Some (Some [fc])" and "fc_name fc = ''removeTask''"
    and "fc_args fc = Some args" and "args ''text'' = Some txt"
  shows
    "(\<exists>pre t post.
        tasksRef s = pre @ t # post \<and>
        (\<forall>u\<in>set pre. \<not> (\<exists>p q. toLowerCase (task_text u) = p @ toLowerCase txt @ q)) \<and>
        (\<exists>p q. toLowerCase (task_text t) = p @ toLowerCase txt @ q) \<and>
        tasks (onmessage env now m s) = filter (\<lambda>u. task_id u \<noteq> task_id t) (tasks s) \<and>
        t \<notin> set (tasks (onmessage env now m s)) \<and>
        (tasks s = tasksRef s \<and> distinct (map task_id (tasks s)) \<longrightarrow>
           tasks (onmessage env now m s) = pre @ post) \<and>
        sentToolResponses (onmessage env now m s) =
          sentToolResponses s @
            [\<lparr>resp_id = fc_id fc, resp_name = ''removeTask'',
              resp_result = ''Removed task: '' @ task_text t\<rparr>]) \<or>
     ((\<forall>u\<in>set (tasksRef s). \<not> (\<exists>p q. toLowerCase (task_text u) = p @ toLowerCase txt @ q)) \<and>
        tasks (onmessage env now m s) = tasks s \<and>
        sentToolResponses (onmessage env now m s) =
          sentToolResponses s @
            [\<lparr>resp_id = fc_id fc, resp_name = ''removeTask'',
              resp_result = ''Could not find task matching '' @ txt\<rparr>])"
proof -
  define s1 where "s1 = onmessage_interrupted m (onmessage_audio env now m s)"
  have run: "onmessage env now m s = functionCalls env [fc] s1"
    using assms(1) by (simp add: onmessage_def onmessage_toolCall_def s1_def)
  have keep: "tasks s1 = tasks s" "tasksRef s1 = tasksRef s"
    "sentToolResponses s1 = sentToolResponses s"
    by (simp_all add: s1_def before_toolCall_keeps)
  from functionCalls_removeTask [OF assms(2-4), of s1 env]
  consider (found) pre t post where
      "tasksRef s1 = pre @ t # post"
      "\<forall>u\<in>set pre. \<not> (\<exists>p q. toLowerCase (task_text u) = p @ toLowerCase txt @ q)"
      "\<exists>p q. toLowerCase (task_text t) = p @ toLowerCase txt @ q"
      "tasks (functionCalls env [fc] s1) = filter (\<lambda>u. task_id u \<noteq> task_id t) (tasks s1)"
      "sentToolResponses (functionCalls env [fc] s1) =
         sentToolResponses s1 @
           [\<lparr>resp_id = fc_id fc, resp_name = ''removeTask'',
             resp_result = ''Removed task: '' @ task_text t\<rparr>]"
    | (none)
      "\<forall>u\<in>set (tasksRef s1). \<not> (\<exists>p q. toLowerCase (task_text u) = p @ toLowerCase txt @ q)"
      "tasks (functionCalls env [fc] s1) = tasks s1"
      "sentToolResponses (functionCalls env [fc] s1) =
         sentToolResponses s1 @
           [\<lparr>resp_id = fc_id fc, resp_name = ''removeTask'',
             resp_result = ''Could not find task matching '' @ txt\<rparr>]"
    by blast
  then show ?thesis
  proof cases
    case found
    have gone: "t \<notin> set (tasks (onmessage env now m s))"
      using found(4) by (simp add: run)
    have one: "tasks (onmessage env now m s) = pre @ post"
      if "tasks s = tasksRef s" "distinct (map task_id (tasks s))"
      using found(1,4) that filter_distinct_id [of pre t post] by (simp add: run keep)
    show ?thesis
      using found gone one unfolding run keep by blast
  next
    case none
    then show ?thesis unfolding run keep by blast
  qed
qed

lemma removeTask_on_mirror_example:
  "tasks (onmessage sample_env 0 (tool_message [remove_call ''d'' ''milk'']) three_tasks) =
     [\<lparr>task_id = ''xxx'', task_text = ''Walk the dog'', completed = False, createdAt = 1002\<rparr>,
      \<lparr>task_id = ''x'', task_text = ''Milk shake'', completed = False, createdAt = 1000\<rparr>] \<and>
   last (sentToolResponses
       (onmessage sample_env 0 (tool_message [remove_call ''d'' ''milk'']) three_tasks)) =
     \<lparr>resp_id = ''d'', resp_name = ''removeTask'',
      resp_result = ''Removed task: Buy MILK and eggs''\<rparr> \<and>
   tasks (onmessage sample_env 0 (tool_message [remove_call ''e'' ''bread'']) three_tasks) =
     tasks three_tasks \<and>
   last (sentToolResponses
       (onmessage sample_env 0 (tool_message [remove_call ''e'' ''bread'']) three_tasks)) =
     \<lparr>resp_id = ''e'', resp_name = ''removeTask'',
      resp_result = ''Could not find task matching bread''\<rparr>"
proof -
  have h: "toolCall (tool_message [remove_call ''d'' ''milk'']) = Some (Some [remove_call ''d'' ''milk''])"
    "fc_name (remove_call ''d'' ''milk'') = ''removeTask''"
    "fc_args (remove_call ''d'' ''milk'') = Some [''text'' \<mapsto> ''milk'']"
    "[''text'' \<mapsto> ''milk''] ''text'' = Some ''milk''"
    by (simp_all add: tool_message_def remove_call_def)
  have c: ?thesis
    by (simp add: three_tasks_eq sample_session_eq initial_def onmessage_def onmessage_audio_def
      onmessage_interrupted_def onmessage_toolCall_def tool_message_def remove_call_def
      callTool_def deleteTask_def sendToolResponse_def toLowerCase_def lowerChar_def
      char_of_eq_iff)
  show ?thesis
    using removeTask_on_mirror [OF h, of three_tasks sample_env 0] c by blast
qed

text \<open>
  Claim C8: the first of the current tasks whose text contains the argument is deleted and
  named in the result, and the result is not-found only when no current task contains the
  argument. The search reads \<open>tasksRef\<close>, which follows \<open>tasks\<close> only after a render,
  so it is behind within a batch. With the three tasks, two of which contain \<open>milk\<close>, a
  batch of two \<open>removeTask\<close> calls for \<open>milk\<close> deletes one task and reports that same
  task removed twice: the second call neither deletes nor names \<open>Milk shake\<close>, the first
  current task that matches. And in a session without tasks, a batch that adds \<open>milk\<close> and
  then removes \<open>milk\<close> answers that no task was found, and the task stays.
\<close>

theorem removeTask_reads_stale_mirror:
  "tasks three_tasks = tasksRef three_tasks \<and>
   map task_text (tasks three_tasks) = [''Walk the dog'', ''Buy MILK and eggs'', ''Milk shake''] \<and>
   map task_text
     (tasks (onmessage sample_env 0
        (tool_message [remove_call ''d'' ''milk'', remove_call ''e'' ''milk'']) three_tasks)) =
     [''Walk the dog'', ''Milk shake''] \<and>
   drop 3 (sentToolResponses (onmessage sample_env 0
        (tool_message [remove_call ''d'' ''milk'', remove_call ''e'' ''milk'']) three_tasks)) =
     [\<lparr>resp_id = ''d'', resp_name = ''removeTask'',
       resp_result = ''Removed task: Buy MILK and eggs''\<rparr>,
      \<lparr>resp_id = ''e'', resp_name = ''removeTask'',
       resp_result = ''Removed task: Buy MILK and eggs''\<rparr>] \<and>
   tasks sample_session = [] \<and>
   map task_text
     (tasks (onmessage sample_env 0
        (tool_message [add_call ''f'' ''milk'', remove_call ''g'' ''milk'']) sample_session)) =
     [''milk''] \<and>
   sentToolResponses (onmessage sample_env 0
        (tool_message [add_call ''f'' ''milk'', remove_call ''g'' ''milk'']) sample_session) =
     [\<lparr>resp_id = ''f'', resp_name = ''addTask'', resp_result = ''Added task: milk''\<rparr>,
      \<lparr>resp_id = ''g'', resp_name = ''removeTask'',
       resp_result = ''Could not find task matching milk''\<rparr>]"
  by (simp add: three_tasks_eq sample_session_eq initial_def onmessage_def onmessage_audio_def
      onmessage_interrupted_def onmessage_toolCall_def tool_message_def remove_call_def
      add_call_def callTool_def addTask_def deleteTask_def sendToolResponse_def trim_def
      isWhitespace_def toLowerCase_def lowerChar_def char_of_eq_iff sample_env_def
      exact_add.rep_eq)

text \<open>
  Claim C10. An \<open>addTask\<close> call with a text is answered with \<open>Added task:\<close> and the
  text in every case. When the text is empty or white space only, \<open>tasks\<close> is unchanged;
  otherwise one task with that text, not completed, is put in front.
\<close>

theorem addTask_tool:
  assumes "toolCall m = Some (Some [fc])" and "fc_name fc = ''addTask''"
    and "fc_args fc = Some args" and "args ''text'' = Some txt"
  shows
    "sentToolResponses (onmessage env now m s) =
       sentToolResponses s @
         [\<lparr>resp_id = fc_id fc, resp_name = ''addTask'', resp_result = ''Added task: '' @ txt\<rparr>] \<and>
     ((\<forall>c\<in>set txt. isWhitespace c) \<longrightarrow> tasks (onmessage env now m s) = tasks s) \<and>
     (\<not> (\<forall>c\<in>set txt. isWhitespace c) \<longrightarrow>
        tasks (onmessage env now m s) =
          \<lparr>task_id = generateId env (idCalls s), task_text = txt, completed = False,
           createdAt = dateNow env (idCalls s)\<rparr> # tasks s)"
proof -
  define s1 where "s1 = onmessage_interrupted m (onmessage_audio env now m s)"
  have run: "onmessage env now m s = functionCalls env [fc] s1"
    using assms(1) by (simp add: onmessage_def onmessage_toolCall_def s1_def)
  have keep: "tasks s1 = tasks s" "idCalls s1 = idCalls s"
    "sentToolResponses s1 = sentToolResponses s"
    by (simp_all add: s1_def before_toolCall_keeps)
  have call: "callTool env fc s1 = Inr (''Added task: '' @ txt, addTask env txt s1)"
    using assms(2-4) by (simp add: callTool_def)
  show ?thesis
    using assms(2) keep
    by (simp add: run call sendToolResponse_def addTask_def trim_empty_iff)
qed

theorem addTask_tool_witness:
  "sentToolResponses (onmessage sample_env 0 (tool_message [add_call ''a'' ''   '']) sample_session) =
     [\<lparr>resp_id = ''a'', resp_name = ''addTask'', resp_result = ''Added task:    ''\<rparr>] \<and>
   tasks (onmessage sample_env 0 (tool_message [add_call ''a'' ''   '']) sample_session) = [] \<and>
   tasks (onmessage sample_env 0 (tool_message [add_call ''b'' '' Buy milk'']) sample_session) =
     [\<lparr>task_id = ''x'', task_text = '' Buy milk'', completed = False, createdAt = 1000\<rparr>]"
proof -
  have h: "toolCall (tool_message [add_call ''a'' ''   '']) = Some (Some [add_call ''a'' ''   ''])"
    "fc_name (add_call ''a'' ''   '') = ''addTask''"
    "fc_args (add_call ''a'' ''   '') = Some [''text'' \<mapsto> ''   '']"
    "[''text'' \<mapsto> ''   ''] ''text'' = Some ''   ''"
    by (simp_all add: tool_message_def add_call_def)
  have k: "toolCall (tool_message [add_call ''b'' '' Buy milk'']) = Some (Some [add_call ''b'' '' Buy milk''])"
    "fc_name (add_call ''b'' '' Buy milk'') = ''addTask''"
    "fc_args (add_call ''b'' '' Buy milk'') = Some [''text'' \<mapsto> '' Buy milk'']"
    "[''text'' \<mapsto> '' Buy milk''] ''text'' = Some '' Buy milk''"
    by (simp_all add: tool_message_def add_call_def)
  show ?thesis
    using addTask_tool [OF h, of sample_env 0 sample_session]
      addTask_tool [OF k, of sample_env 0 sample_session]
    by (simp add: sample_session_eq initial_def add_call_def sample_env_def exact_add.rep_eq isWhitespace_def)
qed

section \<open>The key used to connect\<close>





end
